theory Spec2Isabelle
  imports Complex_Main "HOL-Library.Word"
begin

unbundle bit_operations_syntax

section \<open>The CSV search client: a model of the Vue application\<close>

text \<open>
  The repository's source is the browser client, a Vue application. It is there twice:
  with session handling, and in the earlier revision \<^verbatim>\<open>frontend/js/app.js\<close> without it,
  whose methods are the same apart from the session checks, the session id in the
  requests and the display names. The model follows the revision with sessions. The
  methods are functions on a record of the component's data. Every network call is
  modelled by the reply it receives (a parameter) and by the list of requests the method
  sends (a result), so that "no request is sent" is a statement about that list. A
  method runs from its call to its end without another one in between; the chart and
  the timer that hides an alert after five seconds are left out.

  Strings: a JavaScript string is a sequence of UTF-16 code units. The model uses
  \<^typ>\<open>string\<close>, whose characters are the code units below 256 (ASCII and Latin-1);
  on these the functions below are what the JavaScript built-ins compute.
\<close>

subsection \<open>String built-ins\<close>

text \<open>\<^verbatim>\<open>String.prototype.toLowerCase\<close> on one code unit below 256: the letters A to Z, and
  the Latin-1 capitals 0xC0 to 0xDE without the multiplication sign 0xD7, move up by 32.\<close>

definition toLowerCase_unit :: "char \<Rightarrow> char" where
  "toLowerCase_unit c =
     (let n = (of_char c :: nat)
      in if (65 \<le> n \<and> n \<le> 90) \<or> (192 \<le> n \<and> n \<le> 222 \<and> n \<noteq> 215)
         then char_of (n + 32) else c)"

definition toLowerCase :: "string \<Rightarrow> string" where
  "toLowerCase s = map toLowerCase_unit s"

text \<open>\<^verbatim>\<open>s.replace(pat, rep)\<close> with a string pattern: only the first occurrence is
  replaced.\<close>

fun replace_first :: "string \<Rightarrow> string \<Rightarrow> string \<Rightarrow> string" where
  "replace_first pat rep [] = (if pat = [] then rep else [])"
| "replace_first pat rep (c # cs) =
     (if take (length pat) (c # cs) = pat then rep @ drop (length pat) (c # cs)
      else c # replace_first pat rep cs)"

text \<open>White space of \<^verbatim>\<open>String.prototype.trim\<close> among the code units below 256: TAB, LF,
  VT, FF, CR, SPACE and NO-BREAK SPACE.\<close>

definition is_whitespace :: "char \<Rightarrow> bool" where
  "is_whitespace c = ((of_char c :: nat) \<in> {9, 10, 11, 12, 13, 32, 160})"

definition trim :: "string \<Rightarrow> string" where
  "trim s = rev (dropWhile is_whitespace (rev (dropWhile is_whitespace s)))"

text \<open>JavaScript truthiness of a value that is a string, \<^verbatim>\<open>null\<close> or \<^verbatim>\<open>undefined\<close>:
  \<^verbatim>\<open>!v\<close> holds for the empty string and for the missing value.\<close>

fun falsy :: "string option \<Rightarrow> bool" where
  "falsy None = True"
| "falsy (Some s) = (s = [])"

subsection \<open>Index names\<close>

text \<open>The character class \<^verbatim>\<open>[a-z0-9_-]\<close> and the replacement
  \<^verbatim>\<open>.replace(/[^a-z0-9_-]/g, '_')\<close> of \<^verbatim>\<open>handleFileSelect\<close>.\<close>

definition index_char :: "char \<Rightarrow> bool" where
  "index_char c = (c \<in> set ''abcdefghijklmnopqrstuvwxyz0123456789_-'')"

definition sanitize :: "string \<Rightarrow> string" where
  "sanitize s = map (\<lambda>c. if index_char c then c else CHR ''_'') s"

text \<open>Name normalization: lower-casing, then the replacement (the two steps of
  \<^verbatim>\<open>handleFileSelect\<close> after the file extension is removed).\<close>

definition normalize_name :: "string \<Rightarrow> string" where
  "normalize_name s = sanitize (toLowerCase s)"

text \<open>The index name \<^verbatim>\<open>handleFileSelect\<close> derives from a file name:
  \<^verbatim>\<open>file.name.replace('.csv', '').toLowerCase()\<close>, then the replacement.\<close>

definition autoIndexName :: "string \<Rightarrow> string" where
  "autoIndexName file_name =
     (let baseName = toLowerCase (replace_first ''.csv'' [] file_name)
      in sanitize baseName)"

subsection \<open>Display names\<close>

text \<open>The pattern of \<^verbatim>\<open>loadIndices\<close>,
  \<^verbatim>\<open>/^temp-[0-9a-fA-F]{8}-[0-9a-fA-F]{4}-[0-9a-fA-F]{4}-[0-9a-fA-F]{4}-[0-9a-fA-F]{12}-/\<close>,
  is a sequence of literals and of fixed-length runs of hexadecimal digits, anchored at
  the start. Each piece either consumes a prefix of the input and returns the rest, or
  fails.\<close>

definition hex_digit :: "char \<Rightarrow> bool" where
  "hex_digit c = (c \<in> set ''0123456789abcdefABCDEF'')"

fun match_lit :: "string \<Rightarrow> string \<Rightarrow> string option" where
  "match_lit [] s = Some s"
| "match_lit (p # ps) [] = None"
| "match_lit (p # ps) (c # cs) = (if p = c then match_lit ps cs else None)"

fun match_hex :: "nat \<Rightarrow> string \<Rightarrow> string option" where
  "match_hex 0 s = Some s"
| "match_hex (Suc n) [] = None"
| "match_hex (Suc n) (c # cs) = (if hex_digit c then match_hex n cs else None)"

definition match_session_prefix :: "string \<Rightarrow> string option" where
  "match_session_prefix s =
     Option.bind (match_lit ''temp-'' s) (\<lambda>s1.
     Option.bind (match_hex 8 s1) (\<lambda>s2.
     Option.bind (match_lit ''-'' s2) (\<lambda>s3.
     Option.bind (match_hex 4 s3) (\<lambda>s4.
     Option.bind (match_lit ''-'' s4) (\<lambda>s5.
     Option.bind (match_hex 4 s5) (\<lambda>s6.
     Option.bind (match_lit ''-'' s6) (\<lambda>s7.
     Option.bind (match_hex 4 s7) (\<lambda>s8.
     Option.bind (match_lit ''-'' s8) (\<lambda>s9.
     Option.bind (match_hex 12 s9) (\<lambda>s10.
     match_lit ''-'' s10))))))))))"

text \<open>\<^verbatim>\<open>index.name.replace(/^temp-...-/, '')\<close>: the matched prefix is removed; a string
  the pattern does not match is returned as it is.\<close>

definition display_name :: "string \<Rightarrow> string" where
  "display_name ident =
     (case match_session_prefix ident of Some rest \<Rightarrow> rest | None \<Rightarrow> ident)"

text \<open>The shape the pattern expects between \<^verbatim>\<open>temp-\<close> and the closing hyphen, stated
  on its own: 36 characters, hexadecimal digits in groups of 8, 4, 4, 4 and 12, the
  groups separated by hyphens.\<close>

definition hex_group :: "nat \<Rightarrow> string \<Rightarrow> bool" where
  "hex_group n s = (length s = n \<and> list_all hex_digit s)"

definition uuid_shaped :: "string \<Rightarrow> bool" where
  "uuid_shaped t =
     (length t = 36
      \<and> hex_group 8 (take 8 t) \<and> t ! 8 = CHR ''-''
      \<and> hex_group 4 (take 4 (drop 9 t)) \<and> t ! 13 = CHR ''-''
      \<and> hex_group 4 (take 4 (drop 14 t)) \<and> t ! 18 = CHR ''-''
      \<and> hex_group 4 (take 4 (drop 19 t)) \<and> t ! 23 = CHR ''-''
      \<and> hex_group 12 (drop 24 t))"

subsection \<open>Composing identifiers\<close>

datatype name_error = InvalidNameError

text \<open>Modelled from the spec: the composition of an index identifier,
  \<^verbatim>\<open>temp-<session_token>-<user_name>\<close>, which the server performs and the client
  sources do not contain.\<close>

definition compose_identifier :: "string \<Rightarrow> string \<Rightarrow> string" where
  "compose_identifier session_token user_name = ''temp-'' @ session_token @ ''-'' @ user_name"

text \<open>Modelled from the spec: the server-side \<^verbatim>\<open>resolve(session_token, raw_name)\<close> of the
  index name resolver, which is not part of the client sources. It normalizes the raw
  name, fails with \<^verbatim>\<open>InvalidNameError\<close> when nothing is left, and otherwise composes
  the identifier.\<close>

definition resolve :: "string \<Rightarrow> string \<Rightarrow> name_error + string" where
  "resolve session_token raw_name =
     (let n = normalize_name raw_name
      in if n = [] then Inl InvalidNameError
         else Inr (compose_identifier session_token n))"

subsection \<open>Session tokens\<close>

text \<open>What \<^verbatim>\<open>generateUUID\<close> reads from its environment: the result of
  \<^verbatim>\<open>crypto.randomUUID()\<close> where the browser has it, and the successive values of
  \<^verbatim>\<open>Math.random() * 16 | 0\<close>, each a number from 0 to 15.\<close>

record runtime =
  crypto_randomUUID :: "string option"
  math_random :: "nat \<Rightarrow> 4 word"

text \<open>\<^verbatim>\<open>v.toString(16)\<close> for a value from 0 to 15.\<close>

definition toString16 :: "4 word \<Rightarrow> char" where
  "toString16 v = ''0123456789abcdef'' ! unat v"

text \<open>The fallback \<^verbatim>\<open>template.replace(/[xy]/g, function(c) ...)\<close>: every \<^verbatim>\<open>x\<close> and
  \<^verbatim>\<open>y\<close> of the template, from left to right, is replaced by a digit computed from
  the next random value; \<open>i\<close> counts the random values used so far.\<close>

fun fill_template :: "string \<Rightarrow> nat \<Rightarrow> (nat \<Rightarrow> 4 word) \<Rightarrow> string" where
  "fill_template [] i rnd = []"
| "fill_template (c # cs) i rnd =
     (if c = CHR ''x'' \<or> c = CHR ''y''
      then (let r = rnd i;
                v = (if c = CHR ''x'' then r else (r AND 3) OR 8)
            in toString16 v # fill_template cs (Suc i) rnd)
      else c # fill_template cs i rnd)"

definition generateUUID :: "runtime \<Rightarrow> string" where
  "generateUUID rt =
     (case crypto_randomUUID rt of
        Some uuid \<Rightarrow> uuid
      | None \<Rightarrow> fill_template ''xxxxxxxx-xxxx-4xxx-yxxx-xxxxxxxxxxxx'' 0 (math_random rt))"

subsection \<open>The component's data\<close>

record csv_file =
  file_name :: string
  file_type :: string

record column =
  col_name :: string
  col_type :: string

text \<open>An element of \<^verbatim>\<open>response.data.indices\<close>, as the server sends it.\<close>

record index_info =
  info_name :: string
  info_columns :: "column list"

text \<open>An element of \<^verbatim>\<open>this.indices\<close>: the server's fields, with \<^verbatim>\<open>name\<close> replaced by
  the display name and \<^verbatim>\<open>full_name\<close> added.\<close>

record index_entry =
  entry_name :: string
  full_name :: string
  columns :: "column list"

type_synonym document = string

text \<open>The body of a successful search response (its aggregations are not used by the
  methods modelled here).\<close>

record search_data =
  results :: "document list"
  total_results :: int
  search_time_seconds :: real

record history_entry =
  hist_query :: string
  hist_time :: real
  hist_results :: int
  hist_timestamp :: nat

text \<open>The alerts. The texts are fixed messages of the client, apart from a text taken
  from the server's answer or from a thrown error.\<close>

datatype alert_text =
    No_alert
  | Csv_selected
  | Invalid_csv
  | No_session
  | Missing_file_or_name
  | Csv_uploaded int real
  | Upload_error
  | Indices_error
  | Missing_index_or_query
  | Search_completed int real
  | Search_error
  | Text_of string

datatype alert_kind = success | error

record alert_data =
  alert_message :: alert_text
  alert_type :: alert_kind

record app =
  selectedFile :: "csv_file option"
  indexName :: string
  indices :: "index_entry list"
  selectedIndex :: string
  searchQuery :: string
  searchSize :: int
  searchResults :: "document list"
  searchMetrics :: "search_data option"
  lastSearchQuery :: string
  searchHistory :: "history_entry list"
  sessionId :: "string option"
  uploading :: bool
  searching :: bool
  alert :: alert_data

text \<open>\<^verbatim>\<open>data()\<close>: the state of a freshly created component.\<close>

definition initial_data :: app where
  "initial_data =
     \<lparr>selectedFile = None, indexName = [], indices = [], selectedIndex = [],
      searchQuery = [], searchSize = 10, searchResults = [], searchMetrics = None,
      lastSearchQuery = [], searchHistory = [], sessionId = None,
      uploading = False, searching = False,
      alert = \<lparr>alert_message = No_alert, alert_type = success\<rparr>\<rparr>"

text \<open>The requests the client sends.\<close>

record search_body =
  req_index_name :: string
  req_query :: string
  req_size :: int
  req_agg_fields :: "string list"
  req_session_id :: string

datatype request =
    Get_indices string
  | Post_upload csv_file string string
  | Post_search search_body

text \<open>The replies. A failed upload carries \<^verbatim>\<open>error.response?.data?.detail\<close>; a search
  answers with a body, or with a status that is not ok and an optional \<^verbatim>\<open>detail\<close>
  (the client then throws an error whose message is the detail or the fixed text), or
  the call itself throws an error with a message.\<close>

datatype upload_reply = Upload_ok int real | Upload_failed "string option"

datatype search_reply = Search_ok search_data | Search_not_ok "string option" | Search_threw string

text \<open>\<^verbatim>\<open>text || fallback\<close> for an optional string.\<close>

fun or_default :: "string option \<Rightarrow> alert_text \<Rightarrow> alert_text" where
  "or_default None d = d"
| "or_default (Some s) d = (if s = [] then d else Text_of s)"

subsection \<open>The methods\<close>

definition showAlert :: "alert_text \<Rightarrow> alert_kind \<Rightarrow> app \<Rightarrow> app" where
  "showAlert message type st = st\<lparr>alert := \<lparr>alert_message = message, alert_type = type\<rparr>\<rparr>"

definition handleFileSelect :: "csv_file option \<Rightarrow> app \<Rightarrow> app" where
  "handleFileSelect picked st =
     (case picked of
        None \<Rightarrow> showAlert Invalid_csv error st
      | Some f \<Rightarrow>
          if file_type f = ''text/csv''
          then showAlert Csv_selected success
                 (st\<lparr>selectedFile := Some f, indexName := autoIndexName (file_name f)\<rparr>)
          else showAlert Invalid_csv error st)"

type_synonym storage = "string \<rightharpoonup> string"

definition initializeSession :: "runtime \<Rightarrow> app \<times> storage \<Rightarrow> app \<times> storage" where
  "initializeSession rt = (\<lambda>(st, sessionStorage).
     let stored = sessionStorage ''userSessionId''
     in if falsy stored
        then let fresh = generateUUID rt
             in (st\<lparr>sessionId := Some fresh\<rparr>, sessionStorage(''userSessionId'' \<mapsto> fresh))
        else (st\<lparr>sessionId := stored\<rparr>, sessionStorage))"

text \<open>The session id when \<^verbatim>\<open>!this.sessionId\<close> is false.\<close>

definition session :: "app \<Rightarrow> string option" where
  "session st = (if falsy (sessionId st) then None else sessionId st)"

definition to_entry :: "index_info \<Rightarrow> index_entry" where
  "to_entry index =
     \<lparr>entry_name = display_name (info_name index), full_name = info_name index,
      columns = info_columns index\<rparr>"

text \<open>\<^verbatim>\<open>loadIndices\<close>: the reply is \<open>None\<close> when the request fails.\<close>

definition loadIndices :: "index_info list option \<Rightarrow> app \<Rightarrow> app \<times> request list" where
  "loadIndices reply st =
     (case session st of
        None \<Rightarrow> (st, [])
      | Some sid \<Rightarrow>
          (case reply of
             None \<Rightarrow> (showAlert Indices_error error st, [Get_indices sid])
           | Some infos \<Rightarrow>
               let st1 = st\<lparr>indices := map to_entry infos\<rparr>
               in (if 0 < length (indices st1) \<and> selectedIndex st1 = []
                   then st1\<lparr>selectedIndex := full_name (hd (indices st1))\<rparr>
                   else st1,
                   [Get_indices sid])))"

definition uploadCSV ::
  "upload_reply \<Rightarrow> index_info list option \<Rightarrow> app \<Rightarrow> app \<times> request list" where
  "uploadCSV reply indices_reply st =
     (case session st of
        None \<Rightarrow> (showAlert No_session error st, [])
      | Some sid \<Rightarrow>
          (case selectedFile st of
             None \<Rightarrow> (showAlert Missing_file_or_name error st, [])
           | Some f \<Rightarrow>
               if indexName st = [] then (showAlert Missing_file_or_name error st, [])
               else
                 let st1 = st\<lparr>uploading := True\<rparr>;
                     sent = Post_upload f (indexName st1) sid
                 in (case reply of
                       Upload_ok success_count indexing_time_seconds \<Rightarrow>
                         let st2 = showAlert (Csv_uploaded success_count indexing_time_seconds)
                                     success st1;
                             st3 = st2\<lparr>selectedFile := None, indexName := []\<rparr>;
                             (st4, more) = loadIndices indices_reply st3
                         in (st4\<lparr>uploading := False\<rparr>, sent # more)
                     | Upload_failed detail \<Rightarrow>
                         ((showAlert (or_default detail Upload_error) error st1)
                            \<lparr>uploading := False\<rparr>, [sent]))))"

definition selectIndex :: "index_entry \<Rightarrow> app \<Rightarrow> app" where
  "selectIndex index st = st\<lparr>selectedIndex := full_name index\<rparr>"

text \<open>\<^verbatim>\<open>searchHistory.push(entry)\<close>, then one \<^verbatim>\<open>shift()\<close> when more than ten entries
  are held.\<close>

definition record_search :: "history_entry \<Rightarrow> history_entry list \<Rightarrow> history_entry list" where
  "record_search entry history =
     (let pushed = history @ [entry]
      in if 10 < length pushed then tl pushed else pushed)"

text \<open>The aggregation fields of \<^verbatim>\<open>performSearch\<close>:
  \<^verbatim>\<open>indices.find(i => i.full_name === selectedIndex)?.columns.filter(c => c.type === 'text').map(c => c.name) || []\<close>.\<close>

definition textColumns :: "app \<Rightarrow> string list" where
  "textColumns st =
     (case find (\<lambda>i. full_name i = selectedIndex st) (indices st) of
        None \<Rightarrow> []
      | Some i \<Rightarrow> map col_name (filter (\<lambda>c. col_type c = ''text'') (columns i)))"

text \<open>\<^verbatim>\<open>performSearch\<close>: \<open>now\<close> is the value of \<^verbatim>\<open>new Date()\<close>.\<close>

definition performSearch :: "search_reply \<Rightarrow> nat \<Rightarrow> app \<Rightarrow> app \<times> request list" where
  "performSearch reply now st =
     (case session st of
        None \<Rightarrow> (showAlert No_session error st, [])
      | Some sid \<Rightarrow>
          if selectedIndex st = [] \<or> trim (searchQuery st) = []
          then (showAlert Missing_index_or_query error st, [])
          else
            let st1 = st\<lparr>searching := True, lastSearchQuery := searchQuery st\<rparr>;
                sent = Post_search
                  \<lparr>req_index_name = selectedIndex st1, req_query = searchQuery st1,
                   req_size = searchSize st1, req_agg_fields = textColumns st1,
                   req_session_id = sid\<rparr>
            in (case reply of
                  Search_ok data \<Rightarrow>
                    let st2 = st1\<lparr>searchResults := results data, searchMetrics := Some data\<rparr>;
                        st3 = st2\<lparr>searchHistory :=
                                record_search
                                  \<lparr>hist_query = searchQuery st2,
                                   hist_time = search_time_seconds data,
                                   hist_results = total_results data,
                                   hist_timestamp = now\<rparr>
                                  (searchHistory st2)\<rparr>;
                        st4 = showAlert (Search_completed (total_results data)
                                           (search_time_seconds data)) success st3
                    in (st4\<lparr>searching := False\<rparr>, [sent])
                | Search_not_ok detail \<Rightarrow>
                    ((showAlert (or_default detail Search_error) error st1)
                       \<lparr>searching := False\<rparr>, [sent])
                | Search_threw message \<Rightarrow>
                    ((showAlert (or_default (Some message) Search_error) error st1)
                       \<lparr>searching := False\<rparr>, [sent])))"

subsection \<open>File sizes\<close>

text \<open>\<^verbatim>\<open>formatFileSize\<close> computes with JavaScript numbers, which are binary floating-point
  numbers. Such a number is modelled by the real number it stands for, and a byte count by
  a natural number. \<^verbatim>\<open>Math.floor\<close> is exact. \<^verbatim>\<open>Math.log\<close> and the division round, and
  how they round is the environment's: both are parameters, as is the text of
  \<^verbatim>\<open>parseFloat((bytes / Math.pow(k, i)).toFixed(2))\<close> for a byte count and a unit
  index.\<close>

record numerics =
  math_log :: "real \<Rightarrow> real"
  rounded_div :: "real \<Rightarrow> real \<Rightarrow> real"
  number_text :: "nat \<Rightarrow> int \<Rightarrow> string"

definition sizes :: "string list" where
  "sizes = [''Bytes'', ''KB'', ''MB'', ''GB'']"

text \<open>\<^verbatim>\<open>Math.floor(Math.log(bytes) / Math.log(k))\<close> with \<^verbatim>\<open>k = 1024\<close>.\<close>

definition unit_index :: "numerics \<Rightarrow> nat \<Rightarrow> int" where
  "unit_index fl bytes = \<lfloor>rounded_div fl (math_log fl (real bytes)) (math_log fl 1024)\<rfloor>"

text \<open>\<^verbatim>\<open>sizes[i]\<close> inside a string concatenation: outside the array the element is
  \<^verbatim>\<open>undefined\<close>, which is printed as that word.\<close>

definition unit_text :: "int \<Rightarrow> string" where
  "unit_text i = (if 0 \<le> i \<and> i < int (length sizes) then sizes ! nat i else ''undefined'')"

definition formatFileSize :: "numerics \<Rightarrow> nat \<Rightarrow> string" where
  "formatFileSize fl bytes =
     (if bytes = 0 then ''0 Bytes''
      else let i = unit_index fl bytes
           in number_text fl bytes i @ '' '' @ unit_text i)"

text \<open>The accuracy asked of the environment: on the whole numbers from 1 to \<open>1024 ^ 4\<close>
  the logarithm has a relative error of at most \<open>2 ^ -50\<close>, and so has the division of a
  dividend that is 0 or between 1/4 and 64 by a divisor between 1 and 64. Double
  precision arithmetic with a logarithm that is a few units in the last place off meets
  it (a unit in the last place is a relative error of at most \<open>2 ^ -52\<close>).\<close>

definition numerics_ok :: "numerics \<Rightarrow> bool" where
  "numerics_ok fl =
     ((\<forall>n. 1 \<le> n \<and> n \<le> 1024 ^ 4 \<longrightarrow>
          \<bar>math_log fl (real n) - ln (real n)\<bar> \<le> ln (real n) / 2 ^ 50)
      \<and> (\<forall>x y. (x = 0 \<or> 1 / 4 \<le> x) \<and> x \<le> 64 \<and> 1 \<le> y \<and> y \<le> 64 \<longrightarrow>
          \<bar>rounded_div fl x y - x / y\<bar> \<le> (x / y) / 2 ^ 50))"

subsection \<open>Runs of the application\<close>

text \<open>What can happen to the component: the page is loaded (a fresh component is
  created, \<^verbatim>\<open>mounted\<close> runs \<^verbatim>\<open>initializeSession\<close> and \<^verbatim>\<open>loadIndices\<close>; the session
  storage of the tab survives), a file is picked, a button calls one of the methods, or
  the user types into one of the three form fields. Each event carries what the
  environment contributes to it: replies, random values, the clock.\<close>

datatype event =
    Page_loaded runtime "index_info list option"
  | File_picked "csv_file option"
  | Upload_clicked upload_reply "index_info list option"
  | Index_clicked index_entry
  | Search_clicked search_reply nat
  | Index_name_typed string
  | Query_typed string
  | Size_typed int

definition mounted :: "runtime \<Rightarrow> index_info list option \<Rightarrow> app \<times> storage \<Rightarrow> app \<times> storage" where
  "mounted rt reply w =
     (let (st1, sessionStorage) = initializeSession rt w
      in (fst (loadIndices reply st1), sessionStorage))"

fun step :: "event \<Rightarrow> app \<times> storage \<Rightarrow> app \<times> storage" where
  "step (Page_loaded rt reply) (st, sessionStorage) = mounted rt reply (initial_data, sessionStorage)"
| "step (File_picked picked) (st, sessionStorage) = (handleFileSelect picked st, sessionStorage)"
| "step (Upload_clicked reply indices_reply) (st, sessionStorage) =
     (fst (uploadCSV reply indices_reply st), sessionStorage)"
| "step (Index_clicked index) (st, sessionStorage) = (selectIndex index st, sessionStorage)"
| "step (Search_clicked reply now) (st, sessionStorage) =
     (fst (performSearch reply now st), sessionStorage)"
| "step (Index_name_typed s) (st, sessionStorage) = (st\<lparr>indexName := s\<rparr>, sessionStorage)"
| "step (Query_typed s) (st, sessionStorage) = (st\<lparr>searchQuery := s\<rparr>, sessionStorage)"
| "step (Size_typed n) (st, sessionStorage) = (st\<lparr>searchSize := n\<rparr>, sessionStorage)"

definition run :: "event list \<Rightarrow> app \<times> storage \<Rightarrow> app \<times> storage" where
  "run events w = foldl (\<lambda>w e. step e w) w events"

text \<open>The environment keeps its promise when \<^verbatim>\<open>crypto.randomUUID()\<close>, where it exists,
  returns a string of the UUID shape.\<close>

definition runtime_ok :: "runtime \<Rightarrow> bool" where
  "runtime_ok rt = (case crypto_randomUUID rt of Some uuid \<Rightarrow> uuid_shaped uuid | None \<Rightarrow> True)"

subsection \<open>Example data\<close>

text \<open>A browser without \<^verbatim>\<open>crypto.randomUUID\<close> whose random values are 0, 1, 2, ...;
  the token the fallback then generates; an index of that session with two text columns
  and a numeric one; and the component after the page was loaded with that index listed
  and a query was typed.\<close>

definition example_runtime :: runtime where
  "example_runtime = \<lparr>crypto_randomUUID = None, math_random = word_of_nat\<rparr>"

definition example_token :: string where
  "example_token = ''01234567-89ab-4cde-b012-3456789abcde''"

definition example_index :: index_info where
  "example_index =
     \<lparr>info_name = ''temp-01234567-89ab-4cde-b012-3456789abcde-sales'',
      info_columns =
        [\<lparr>col_name = ''city'', col_type = ''text''\<rparr>,
         \<lparr>col_name = ''price'', col_type = ''float''\<rparr>,
         \<lparr>col_name = ''product'', col_type = ''text''\<rparr>]\<rparr>"

definition example_events :: "event list" where
  "example_events = [Page_loaded example_runtime (Some [example_index]), Query_typed ''shoes'']"

definition example_state :: app where
  "example_state =
     initial_data
       \<lparr>indices := [\<lparr>entry_name = ''sales'', full_name = info_name example_index,
                     columns = info_columns example_index\<rparr>],
        selectedIndex := info_name example_index,
        searchQuery := ''shoes'',
        sessionId := Some example_token\<rparr>"

definition example_data :: search_data where
  "example_data = \<lparr>results = [''{}''], total_results = 1, search_time_seconds = 0\<rparr>"

text \<open>The same run followed by ten successful searches, at the times 1 to 10.\<close>

definition example_searches :: "event list" where
  "example_searches =
     example_events @ map (\<lambda>t. Search_clicked (Search_ok example_data) t) [1..<11]"

text \<open>An environment that computes the logarithm and the division exactly, and prints
  the number of the example, 1536 / 1024, as \<^verbatim>\<open>1.5\<close>.\<close>

definition example_numerics :: numerics where
  "example_numerics = \<lparr>math_log = ln, rounded_div = (/), number_text = (\<lambda>bytes i. ''1.5'')\<rparr>"

section \<open>Properties\<close>

subsection \<open>The pattern of display names\<close>

lemma match_lit_iff: "match_lit p s = Some r \<longleftrightarrow> s = p @ r"
  by (induction p s rule: match_lit.induct) auto

lemma match_hex_iff:
  "match_hex n s = Some r \<longleftrightarrow> (\<exists>h. hex_group n h \<and> s = h @ r)"
proof (induction n s rule: match_hex.induct)
  case (1 s)
  then show ?case by (auto simp: hex_group_def)
next
  case (2 n)
  then show ?case by (auto simp: hex_group_def)
next
  case (3 n c cs)
  show ?case
  proof
    assume "match_hex (Suc n) (c # cs) = Some r"
    then have c: "hex_digit c" and "match_hex n cs = Some r"
      by (auto split: if_splits)
    with 3 obtain h where "hex_group n h" "cs = h @ r" by auto
    with c have "hex_group (Suc n) (c # h) \<and> c # cs = (c # h) @ r"
      by (simp add: hex_group_def)
    then show "\<exists>h. hex_group (Suc n) h \<and> c # cs = h @ r" by blast
  next
    assume "\<exists>h. hex_group (Suc n) h \<and> c # cs = h @ r"
    then obtain h where h: "hex_group (Suc n) h" "c # cs = h @ r" by blast
    then obtain h' where h': "h = c # h'" by (cases h) (auto simp: hex_group_def)
    with h have "hex_digit c" "hex_group n h'" "cs = h' @ r" by (auto simp: hex_group_def)
    with 3 show "match_hex (Suc n) (c # cs) = Some r" by auto
  qed
qed

lemma match_lit_append: "match_lit p (p @ r) = Some r"
  by (simp add: match_lit_iff)

lemma match_hex_append: "hex_group n h \<Longrightarrow> match_hex n (h @ r) = Some r"
  using match_hex_iff by blast

lemma match_session_prefix_complete:
  assumes "hex_group 8 a" "hex_group 4 b" "hex_group 4 c" "hex_group 4 d" "hex_group 12 e"
  shows "match_session_prefix
           (''temp-'' @ (a @ ''-'' @ b @ ''-'' @ c @ ''-'' @ d @ ''-'' @ e) @ ''-'' @ r) = Some r"
proof -
  have "match_session_prefix
           (''temp-'' @ a @ ''-'' @ b @ ''-'' @ c @ ''-'' @ d @ ''-'' @ e @ ''-'' @ r) = Some r"
    unfolding match_session_prefix_def
    by (simp only: match_lit_append match_hex_append assms Option.bind.simps)
  then show ?thesis by (simp only: append_assoc)
qed

lemma match_session_prefix_sound:
  assumes "match_session_prefix s = Some r"
  shows "\<exists>a b c d e. hex_group 8 a \<and> hex_group 4 b \<and> hex_group 4 c \<and> hex_group 4 d
           \<and> hex_group 12 e
           \<and> s = ''temp-'' @ (a @ ''-'' @ b @ ''-'' @ c @ ''-'' @ d @ ''-'' @ e) @ ''-'' @ r"
proof -
  from assms obtain s1 s2 s3 s4 s5 s6 s7 s8 s9 s10 where
    m: "match_lit ''temp-'' s = Some s1" "match_hex 8 s1 = Some s2"
       "match_lit ''-'' s2 = Some s3" "match_hex 4 s3 = Some s4"
       "match_lit ''-'' s4 = Some s5" "match_hex 4 s5 = Some s6"
       "match_lit ''-'' s6 = Some s7" "match_hex 4 s7 = Some s8"
       "match_lit ''-'' s8 = Some s9" "match_hex 12 s9 = Some s10"
       "match_lit ''-'' s10 = Some r"
    unfolding match_session_prefix_def bind_eq_Some_conv by blast
  from m(2) obtain a where a: "hex_group 8 a" "s1 = a @ s2" unfolding match_hex_iff by blast
  from m(4) obtain b where b: "hex_group 4 b" "s3 = b @ s4" unfolding match_hex_iff by blast
  from m(6) obtain c where c: "hex_group 4 c" "s5 = c @ s6" unfolding match_hex_iff by blast
  from m(8) obtain d where d: "hex_group 4 d" "s7 = d @ s8" unfolding match_hex_iff by blast
  from m(10) obtain e where e: "hex_group 12 e" "s9 = e @ s10" unfolding match_hex_iff by blast
  from m(1,3,5,7,9,11) have l: "s = ''temp-'' @ s1" "s2 = ''-'' @ s3" "s4 = ''-'' @ s5"
      "s6 = ''-'' @ s7" "s8 = ''-'' @ s9" "s10 = ''-'' @ r"
    unfolding match_lit_iff by blast+
  have "s = ''temp-'' @ (a @ ''-'' @ b @ ''-'' @ c @ ''-'' @ d @ ''-'' @ e) @ ''-'' @ r"
    by (simp only: l a b c d e append_assoc)
  with a(1) b(1) c(1) d(1) e(1) show ?thesis by blast
qed

lemma drop_split_hyphen:
  assumes "n < length t" "t ! n = CHR ''-''"
  shows "drop n t = ''-'' @ drop (Suc n) t"
  using Cons_nth_drop_Suc [of n t] assms by simp

lemma drop_split_group: "drop n t = take k (drop n t) @ drop (k + n) t"
proof -
  have "drop n t = take k (drop n t) @ drop k (drop n t)"
    by (rule append_take_drop_id [symmetric])
  also have "drop k (drop n t) = drop (k + n) t"
    by (rule drop_drop)
  finally show ?thesis .
qed

lemma uuid_shaped_split:
  assumes u: "uuid_shaped t"
  shows "t = take 8 t @ ''-'' @ take 4 (drop 9 t) @ ''-'' @ take 4 (drop 14 t) @ ''-''
             @ take 4 (drop 19 t) @ ''-'' @ drop 24 t"
proof -
  from u have len: "length t = 36" and h: "t ! 8 = CHR ''-''" "t ! 13 = CHR ''-''"
      "t ! 18 = CHR ''-''" "t ! 23 = CHR ''-''"
    by (simp_all add: uuid_shaped_def)
  have n: "(4::nat) + 9 = 13" "(4::nat) + 14 = 18" "(4::nat) + 19 = 23"
      "Suc 8 = 9" "Suc 13 = 14" "Suc 18 = 19" "Suc 23 = 24"
    by simp_all
  have 1: "t = take 8 t @ drop 8 t"
    by (rule append_take_drop_id [symmetric])
  have 2: "drop 8 t = ''-'' @ drop 9 t"
    using drop_split_hyphen [of 8 t, unfolded n] len h by simp
  have 3: "drop 9 t = take 4 (drop 9 t) @ drop 13 t"
    by (rule drop_split_group [of 9 t 4, unfolded n])
  have 4: "drop 13 t = ''-'' @ drop 14 t"
    using drop_split_hyphen [of 13 t, unfolded n] len h by simp
  have 5: "drop 14 t = take 4 (drop 14 t) @ drop 18 t"
    by (rule drop_split_group [of 14 t 4, unfolded n])
  have 6: "drop 18 t = ''-'' @ drop 19 t"
    using drop_split_hyphen [of 18 t, unfolded n] len h by simp
  have 7: "drop 19 t = take 4 (drop 19 t) @ drop 23 t"
    by (rule drop_split_group [of 19 t 4, unfolded n])
  have 8: "drop 23 t = ''-'' @ drop 24 t"
    using drop_split_hyphen [of 23 t, unfolded n] len h by simp
  show ?thesis
    by (rule trans [OF 1]) (simp only: 2 [symmetric] 3 [symmetric] 4 [symmetric]
        5 [symmetric] 6 [symmetric] 7 [symmetric] 8 [symmetric])
qed

lemma uuid_shaped_iff:
  "uuid_shaped t \<longleftrightarrow>
     (\<exists>a b c d e. hex_group 8 a \<and> hex_group 4 b \<and> hex_group 4 c \<and> hex_group 4 d \<and> hex_group 12 e
        \<and> t = a @ ''-'' @ b @ ''-'' @ c @ ''-'' @ d @ ''-'' @ e)"
proof
  assume u: "uuid_shaped t"
  with uuid_shaped_split [OF u]
  show "\<exists>a b c d e. hex_group 8 a \<and> hex_group 4 b \<and> hex_group 4 c \<and> hex_group 4 d \<and> hex_group 12 e
        \<and> t = a @ ''-'' @ b @ ''-'' @ c @ ''-'' @ d @ ''-'' @ e"
    unfolding uuid_shaped_def by blast
next
  assume "\<exists>a b c d e. hex_group 8 a \<and> hex_group 4 b \<and> hex_group 4 c \<and> hex_group 4 d \<and> hex_group 12 e
        \<and> t = a @ ''-'' @ b @ ''-'' @ c @ ''-'' @ d @ ''-'' @ e"
  then obtain a b c d e where g: "hex_group 8 a" "hex_group 4 b" "hex_group 4 c" "hex_group 4 d"
      "hex_group 12 e" and t: "t = a @ ''-'' @ b @ ''-'' @ c @ ''-'' @ d @ ''-'' @ e"
    by blast
  from g have l: "length a = 8" "length b = 4" "length c = 4" "length d = 4" "length e = 12"
    by (simp_all add: hex_group_def)
  show "uuid_shaped t"
    unfolding uuid_shaped_def t using g l by (simp add: nth_append)
qed


lemma match_session_prefix_iff:
  "match_session_prefix s = Some r \<longleftrightarrow>
     (\<exists>tok. uuid_shaped tok \<and> s = ''temp-'' @ tok @ ''-'' @ r)"
proof
  assume "match_session_prefix s = Some r"
  from match_session_prefix_sound [OF this] show "\<exists>tok. uuid_shaped tok \<and> s = ''temp-'' @ tok @ ''-'' @ r"
    unfolding uuid_shaped_iff by blast
next
  assume "\<exists>tok. uuid_shaped tok \<and> s = ''temp-'' @ tok @ ''-'' @ r"
  then obtain tok where "uuid_shaped tok" and s: "s = ''temp-'' @ tok @ ''-'' @ r" by blast
  then obtain a b c d e where g: "hex_group 8 a" "hex_group 4 b" "hex_group 4 c" "hex_group 4 d"
      "hex_group 12 e" and t: "tok = a @ ''-'' @ b @ ''-'' @ c @ ''-'' @ d @ ''-'' @ e"
    unfolding uuid_shaped_iff by blast
  show "match_session_prefix s = Some r"
    unfolding s t by (rule match_session_prefix_complete [OF g])
qed


lemma compose_identifier_inj:
  assumes "length A = length B"
    and "compose_identifier A m = compose_identifier B n"
  shows "A = B \<and> m = n"
  using assms by (simp add: compose_identifier_def)

lemma uuid_shaped_length: "uuid_shaped t \<Longrightarrow> length t = 36"
  by (simp add: uuid_shaped_def)

text \<open>Claim C1. Two different session tokens never give the same identifier for one raw
  name: the composed strings \<^verbatim>\<open>temp-<session_token>-<normalized name>\<close> differ, and
  so do the results of \<open>resolve\<close> whenever it returns identifiers. For tokens of the UUID
  shape the identifiers of two sessions differ for any two names as well.\<close>
theorem resolve_sessions_disjoint:
  assumes "A \<noteq> B"
  shows "compose_identifier A (normalize_name raw_name) \<noteq> compose_identifier B (normalize_name raw_name)
         \<and> (\<forall>a b. resolve A raw_name = Inr a \<and> resolve B raw_name = Inr b \<longrightarrow> a \<noteq> b)
         \<and> (uuid_shaped A \<and> uuid_shaped B \<longrightarrow>
               compose_identifier A (normalize_name raw_name)
                 \<noteq> compose_identifier B (normalize_name other_name))"
proof -
  have same: "compose_identifier A (normalize_name raw_name) \<noteq> compose_identifier B (normalize_name raw_name)"
    using assms by (simp add: compose_identifier_def)
  then have res: "\<forall>a b. resolve A raw_name = Inr a \<and> resolve B raw_name = Inr b \<longrightarrow> a \<noteq> b"
    by (auto simp: resolve_def Let_def split: if_splits)
  have any: "uuid_shaped A \<and> uuid_shaped B \<longrightarrow>
               compose_identifier A (normalize_name raw_name)
                 \<noteq> compose_identifier B (normalize_name other_name)"
    using assms compose_identifier_inj [of A B] uuid_shaped_length [of A] uuid_shaped_length [of B]
    by metis
  from same res any show ?thesis by blast
qed

text \<open>Two sessions resolving the raw name \<^verbatim>\<open>Sales 2024\<close>.\<close>
theorem resolve_sessions_disjoint_witness:
  "''11111111-1111-4111-8111-111111111111'' \<noteq> ''22222222-2222-4222-8222-222222222222''
   \<and> resolve ''11111111-1111-4111-8111-111111111111'' ''Sales 2024''
       = Inr ''temp-11111111-1111-4111-8111-111111111111-sales_2024''
   \<and> resolve ''22222222-2222-4222-8222-222222222222'' ''Sales 2024''
       = Inr ''temp-22222222-2222-4222-8222-222222222222-sales_2024''
   \<and> ''temp-11111111-1111-4111-8111-111111111111-sales_2024''
       \<noteq> ''temp-22222222-2222-4222-8222-222222222222-sales_2024''"
proof -
  have d: "''11111111-1111-4111-8111-111111111111'' \<noteq> ''22222222-2222-4222-8222-222222222222''"
    by simp
  have r1: "resolve ''11111111-1111-4111-8111-111111111111'' ''Sales 2024''
       = Inr ''temp-11111111-1111-4111-8111-111111111111-sales_2024''"
    by code_simp
  have r2: "resolve ''22222222-2222-4222-8222-222222222222'' ''Sales 2024''
       = Inr ''temp-22222222-2222-4222-8222-222222222222-sales_2024''"
    by code_simp
  from resolve_sessions_disjoint [OF d, of "''Sales 2024''" "''Sales 2024''"] r1 r2
  have "''temp-11111111-1111-4111-8111-111111111111-sales_2024''
       \<noteq> ''temp-22222222-2222-4222-8222-222222222222-sales_2024''"
    by blast
  with d r1 r2 show ?thesis by blast
qed




lemma initializeSession_reuses_stored:
  assumes "sessionStorage ''userSessionId'' = Some token" and "token \<noteq> []"
  shows "initializeSession rt (st, sessionStorage) = (st\<lparr>sessionId := Some token\<rparr>, sessionStorage)"
  using assms by (simp add: initializeSession_def)

text \<open>Claim C4. An identifier that is not \<^verbatim>\<open>temp-\<close>, a token of the 8-4-4-4-12
  hexadecimal shape, a hyphen and a rest is returned unchanged by the display-name
  transformation. \<open>display_name\<close> is a total function on strings: there is no input on
  which it fails.\<close>
theorem display_name_unmatched:
  assumes "\<not> (\<exists>tok rest. uuid_shaped tok \<and> ident = ''temp-'' @ tok @ ''-'' @ rest)"
  shows "display_name ident = ident"
proof (cases "match_session_prefix ident")
  case None
  then show ?thesis by (simp add: display_name_def)
next
  case (Some rest)
  with assms show ?thesis unfolding match_session_prefix_iff by blast
qed

text \<open>An identifier that starts with \<^verbatim>\<open>temp-\<close> but carries no token of that shape.\<close>
theorem display_name_unmatched_witness:
  "\<not> (\<exists>tok rest. uuid_shaped tok \<and> ''temp-1234-sales'' = ''temp-'' @ tok @ ''-'' @ rest)
   \<and> display_name ''temp-1234-sales'' = ''temp-1234-sales''"
proof -
  have h: "\<not> (\<exists>tok rest. uuid_shaped tok \<and> ''temp-1234-sales'' = ''temp-'' @ tok @ ''-'' @ rest)"
  proof
    assume "\<exists>tok rest. uuid_shaped tok \<and> ''temp-1234-sales'' = ''temp-'' @ tok @ ''-'' @ rest"
    then obtain tok rest where "length tok = 36"
        and "''temp-1234-sales'' = ''temp-'' @ tok @ ''-'' @ rest"
      by (auto simp: uuid_shaped_def)
    then have "length ''temp-1234-sales'' = length (''temp-'' @ tok @ ''-'' @ rest)"
      by (simp only:)
    with \<open>length tok = 36\<close> show False by simp
  qed
  from display_name_unmatched [OF h] h show ?thesis by blast
qed

subsection \<open>Normalization and generated tokens\<close>

lemma sanitize_chars: "\<forall>c\<in>set (sanitize s). index_char c"
  by (auto simp: sanitize_def index_char_def)

lemma length_normalize: "length (normalize_name s) = length s"
  by (simp add: normalize_name_def sanitize_def toLowerCase_def)

lemma toString16_hex: "hex_digit (toString16 v)"
proof -
  have "unat v < 16" using unsigned_less [of v] by simp
  then have "toString16 v \<in> set ''0123456789abcdef''"
    unfolding toString16_def by (intro nth_mem) simp
  then show ?thesis unfolding hex_digit_def by auto
qed

lemma fallback_shaped:
  "uuid_shaped (fill_template ''xxxxxxxx-xxxx-4xxx-yxxx-xxxxxxxxxxxx'' 0 rnd)"
proof -
  have four: "hex_digit (CHR ''4'')" by (simp add: hex_digit_def)
  show ?thesis
    by (simp add: uuid_shaped_def hex_group_def toString16_hex four Let_def)
qed

lemma generateUUID_shaped: "runtime_ok rt \<Longrightarrow> uuid_shaped (generateUUID rt)"
proof (cases "crypto_randomUUID rt")
  case None
  then have "generateUUID rt = fill_template ''xxxxxxxx-xxxx-4xxx-yxxx-xxxxxxxxxxxx'' 0 (math_random rt)"
    by (simp add: generateUUID_def)
  then show ?thesis by (simp only: fallback_shaped)
next
  case (Some uuid)
  assume "runtime_ok rt"
  with Some show ?thesis by (simp add: runtime_ok_def generateUUID_def)
qed

lemma uuid_shaped_nonempty: "uuid_shaped t \<Longrightarrow> t \<noteq> []"
  by (auto simp: uuid_shaped_def)

subsection \<open>The search history along a run\<close>

lemma loadIndices_frame:
  "searchHistory (fst (loadIndices reply st)) = searchHistory st"
  "sessionId (fst (loadIndices reply st)) = sessionId st"
  by (auto simp: loadIndices_def showAlert_def Let_def split: option.splits)

lemma uploadCSV_history:
  "searchHistory (fst (uploadCSV reply indices_reply st)) = searchHistory st"
  by (auto simp: uploadCSV_def showAlert_def Let_def loadIndices_frame
      split: option.splits upload_reply.splits prod.splits
      dest: arg_cong [where f = "\<lambda>p. searchHistory (fst p)"])

lemma length_record_search:
  "length history \<le> 10 \<Longrightarrow> length (record_search entry history) \<le> 10"
  by (simp add: record_search_def Let_def)

lemma record_search_fifo:
  "length history \<le> 10 \<Longrightarrow>
   record_search entry history =
     (if length history < 10 then history @ [entry] else tl history @ [entry])"
  by (cases history) (auto simp: record_search_def Let_def)

lemma performSearch_history:
  "searchHistory (fst (performSearch reply now st)) =
     (case (session st, reply) of
        (Some sid, Search_ok data) \<Rightarrow>
          if selectedIndex st = [] \<or> trim (searchQuery st) = [] then searchHistory st
          else record_search
                 \<lparr>hist_query = searchQuery st, hist_time = search_time_seconds data,
                  hist_results = total_results data, hist_timestamp = now\<rparr>
                 (searchHistory st)
      | _ \<Rightarrow> searchHistory st)"
  by (auto simp: performSearch_def showAlert_def Let_def
      split: option.splits search_reply.splits)

lemma step_history_bounded:
  assumes "length (searchHistory (fst w)) \<le> 10"
  shows "length (searchHistory (fst (step e w))) \<le> 10"
proof (cases w)
  case (Pair st stor)
  with assms have h: "length (searchHistory st) \<le> 10" by simp
  show ?thesis
  proof (cases e)
    case (Page_loaded rt reply)
    then show ?thesis
      by (simp add: Pair mounted_def initializeSession_def Let_def loadIndices_frame
          initial_data_def split: prod.splits)
  next
    case (Search_clicked reply now)
    with h show ?thesis
      by (auto simp: Pair performSearch_history length_record_search
          split: option.splits search_reply.splits)
  qed (use h in \<open>simp_all add: Pair uploadCSV_history handleFileSelect_def showAlert_def
        selectIndex_def split: option.splits\<close>)
qed

lemma run_history_bounded:
  "length (searchHistory (fst w)) \<le> 10 \<Longrightarrow> length (searchHistory (fst (run events w))) \<le> 10"
  unfolding run_def
  by (induction events arbitrary: w) (simp_all add: step_history_bounded)

lemma initial_history: "searchHistory initial_data = []"
  by (simp add: initial_data_def)

subsection \<open>The session storage along a run\<close>

lemma step_storage_stable:
  assumes "\<not> falsy (stor ''userSessionId'')"
  shows "snd (step e (st, stor)) = stor"
  using assms
  by (cases e) (simp_all add: mounted_def initializeSession_def Let_def split: prod.splits)

lemma run_storage_stable:
  assumes "\<not> falsy (stor ''userSessionId'')"
  shows "snd (run events (st, stor)) = stor"
  unfolding run_def using assms
proof (induction events arbitrary: st)
  case Nil
  then show ?case by simp
next
  case (Cons e events)
  obtain st' where s: "step e (st, stor) = (st', stor)"
    using step_storage_stable [of stor e st] Cons.prems by (cases "step e (st, stor)") simp
  show ?case using Cons.IH [of st'] Cons.prems by (simp add: s)
qed

text \<open>Claim C8. \<open>initializeSession\<close> generates and stores a token only when the storage
  holds none; otherwise the storage is left as it is. Either way the component's session
  id is the stored token afterwards, every later call of \<open>initializeSession\<close> (with any
  random values, from any state of the component) reuses that token and leaves the
  storage unchanged, and so does every later run of the application, page loads
  included.\<close>
theorem session_token_created_once:
  assumes "runtime_ok rt" and "initializeSession rt (st, stor) = (st1, stor1)"
  shows "stor1 ''userSessionId'' =
           (if falsy (stor ''userSessionId'') then Some (generateUUID rt)
            else stor ''userSessionId'')
         \<and> (\<not> falsy (stor ''userSessionId'') \<longrightarrow> stor1 = stor)
         \<and> sessionId st1 = stor1 ''userSessionId''
         \<and> initializeSession rt' (st', stor1) = (st'\<lparr>sessionId := stor1 ''userSessionId''\<rparr>, stor1)
         \<and> snd (run events (st', stor1)) = stor1"
proof -
  have fresh: "\<not> falsy (Some (generateUUID rt))"
    using uuid_shaped_nonempty [OF generateUUID_shaped [OF assms(1)]] by simp
  have stored: "stor1 ''userSessionId'' =
           (if falsy (stor ''userSessionId'') then Some (generateUUID rt)
            else stor ''userSessionId'')"
    using assms(2) by (auto simp: initializeSession_def Let_def split: if_splits)
  with fresh have present: "\<not> falsy (stor1 ''userSessionId'')"
    by (simp split: if_splits)
  have kept: "\<not> falsy (stor ''userSessionId'') \<longrightarrow> stor1 = stor"
    using assms(2) by (auto simp: initializeSession_def Let_def split: if_splits)
  have sid: "sessionId st1 = stor1 ''userSessionId''"
    using assms(2) by (auto simp: initializeSession_def Let_def split: if_splits)
  have again: "initializeSession rt' (st', stor1) = (st'\<lparr>sessionId := stor1 ''userSessionId''\<rparr>, stor1)"
    using present by (simp add: initializeSession_def Let_def)
  have later: "snd (run events (st', stor1)) = stor1"
    using run_storage_stable [of stor1 events st'] present by simp
  from stored kept sid again later show ?thesis by blast
qed

subsection \<open>Searching, listing and uploading\<close>

lemma dropWhile_Nil_iff: "dropWhile P xs = [] \<longleftrightarrow> (\<forall>x\<in>set xs. P x)"
  by (induction xs) auto

lemma trim_empty_iff: "trim s = [] \<longleftrightarrow> (\<forall>c\<in>set s. is_whitespace c)"
proof -
  have "trim s = [] \<longleftrightarrow> (\<forall>c\<in>set (dropWhile is_whitespace s). is_whitespace c)"
    by (simp add: trim_def dropWhile_Nil_iff)
  also have "\<dots> \<longleftrightarrow> dropWhile is_whitespace s = []"
  proof
    assume a: "\<forall>c\<in>set (dropWhile is_whitespace s). is_whitespace c"
    show "dropWhile is_whitespace s = []"
    proof (rule ccontr)
      assume n: "dropWhile is_whitespace s \<noteq> []"
      then have "\<not> is_whitespace (hd (dropWhile is_whitespace s))" by (rule hd_dropWhile)
      moreover from n have "hd (dropWhile is_whitespace s) \<in> set (dropWhile is_whitespace s)"
        by simp
      ultimately show False using a by blast
    qed
  next
    assume e: "dropWhile is_whitespace s = []"
    show "\<forall>c\<in>set (dropWhile is_whitespace s). is_whitespace c"
      unfolding e by simp
  qed
  also have "\<dots> \<longleftrightarrow> (\<forall>c\<in>set s. is_whitespace c)"
    by (rule dropWhile_Nil_iff)
  finally show ?thesis .
qed

text \<open>Claim C5. When the query is empty or consists of white space only, \<open>performSearch\<close>
  sends no request and shows an alert of type error; results, metrics and history stay
  as they were, whatever the server would have answered.\<close>
theorem empty_query_is_error:
  assumes "\<forall>c\<in>set (searchQuery st). is_whitespace c"
  shows "snd (performSearch reply now st) = []
         \<and> alert_type (alert (fst (performSearch reply now st))) = error
         \<and> searchResults (fst (performSearch reply now st)) = searchResults st
         \<and> searchMetrics (fst (performSearch reply now st)) = searchMetrics st
         \<and> searchHistory (fst (performSearch reply now st)) = searchHistory st"
proof -
  from assms have "trim (searchQuery st) = []" by (simp only: trim_empty_iff)
  then show ?thesis
    by (simp add: performSearch_def showAlert_def split: option.splits)
qed

lemma find_Some_member: "find P xs = Some x \<Longrightarrow> x \<in> set xs \<and> P x"
  by (induction xs) (auto split: if_splits)

text \<open>Claim C7. In every search request that is sent, the aggregation fields are the names
  of the columns of type \<^verbatim>\<open>text\<close> of the selected index (the entry of \<open>indices\<close> found
  by its full name), and nothing else: every field sent is the name of a text column of
  an index with the selected name.\<close>
theorem agg_fields_are_text_columns:
  assumes "Post_search body \<in> set (snd (performSearch reply now st))"
  shows "req_agg_fields body = textColumns st
         \<and> set (textColumns st) =
             {col_name c | c i. find (\<lambda>i. full_name i = selectedIndex st) (indices st) = Some i
                \<and> c \<in> set (columns i) \<and> col_type c = ''text''}
         \<and> (\<forall>n\<in>set (req_agg_fields body). \<exists>i\<in>set (indices st). \<exists>c\<in>set (columns i).
               full_name i = selectedIndex st \<and> col_name c = n \<and> col_type c = ''text'')"
proof -
  have sent: "req_agg_fields body = textColumns st"
    using assms
    by (auto simp: performSearch_def showAlert_def Let_def textColumns_def
        split: option.splits if_splits search_reply.splits)
  have exact: "set (textColumns st) =
             {col_name c | c i. find (\<lambda>i. full_name i = selectedIndex st) (indices st) = Some i
                \<and> c \<in> set (columns i) \<and> col_type c = ''text''}"
  proof (cases "find (\<lambda>i. full_name i = selectedIndex st) (indices st)")
    case None
    then show ?thesis by (simp add: textColumns_def)
  next
    case (Some i)
    then show ?thesis by (auto simp: textColumns_def)
  qed
  have "\<forall>n\<in>set (textColumns st). \<exists>i\<in>set (indices st). \<exists>c\<in>set (columns i).
               full_name i = selectedIndex st \<and> col_name c = n \<and> col_type c = ''text''"
  proof (cases "find (\<lambda>i. full_name i = selectedIndex st) (indices st)")
    case None
    then show ?thesis by (simp add: textColumns_def)
  next
    case (Some i)
    from find_Some_member [OF Some] have "i \<in> set (indices st)" "full_name i = selectedIndex st"
      by simp_all
    with Some show ?thesis by (auto simp: textColumns_def)
  qed
  with sent exact show ?thesis by simp
qed

text \<open>Claim C9. \<open>loadIndices\<close> never changes a selection that is not empty; when it does
  change the selection, none was made before and the first listed index is selected.\<close>
theorem loadIndices_keeps_selection:
  "(selectedIndex st \<noteq> [] \<longrightarrow> selectedIndex (fst (loadIndices reply st)) = selectedIndex st)
   \<and> (selectedIndex (fst (loadIndices reply st)) \<noteq> selectedIndex st \<longrightarrow>
        selectedIndex st = []
        \<and> (\<exists>index rest. reply = Some (index # rest)
              \<and> selectedIndex (fst (loadIndices reply st)) = info_name index))"
  by (cases reply; cases "the reply")
    (auto simp: loadIndices_def showAlert_def Let_def to_entry_def split: option.splits)

text \<open>Claim C6. In every state the application can reach from its initial data, a search
  that completes leaves at most ten entries in the history: the new entry is appended at
  the end; the earlier entries keep their order, and the oldest of them is dropped when
  ten were held already.\<close>
theorem search_history_fifo:
  assumes "run events (initial_data, stor) = (st, stor')"
    and "performSearch (Search_ok data) now st = (st', sent)"
    and "sent \<noteq> []"
  shows "length (searchHistory st') \<le> 10
         \<and> searchHistory st' =
             (if length (searchHistory st) < 10 then searchHistory st else tl (searchHistory st))
             @ [\<lparr>hist_query = searchQuery st, hist_time = search_time_seconds data,
                 hist_results = total_results data, hist_timestamp = now\<rparr>]"
proof -
  let ?e = "\<lparr>hist_query = searchQuery st, hist_time = search_time_seconds data,
             hist_results = total_results data, hist_timestamp = now\<rparr>"
  have "length (searchHistory (fst (run events (initial_data, stor)))) \<le> 10"
    by (rule run_history_bounded) (simp add: initial_history)
  with assms(1) have bound: "length (searchHistory st) \<le> 10" by simp
  from assms(2,3) have "searchHistory st' = record_search ?e (searchHistory st)"
    by (auto simp: performSearch_def showAlert_def Let_def split: option.splits if_splits)
  with bound show ?thesis
    by (simp add: length_record_search record_search_fifo)
qed

text \<open>Claim C2. Normalization lower-cases a name and replaces every character outside
  \<^verbatim>\<open>[a-z0-9_-]\<close> by an underscore, so the result has characters of that class only, and
  it is empty only for the empty name; \<open>resolve\<close> fails with \<open>InvalidNameError\<close> exactly
  when it is empty. In the client, \<open>handleFileSelect\<close> stores the normalization of the file
  name without its first \<^verbatim>\<open>.csv\<close> as the index name, and with an empty index name the
  upload fails: \<open>uploadCSV\<close> sends nothing and shows an alert of type error.\<close>
theorem index_name_normalized:
  "(\<forall>c\<in>set (normalize_name s). index_char c)
   \<and> normalize_name s = map (\<lambda>c. if index_char c then c else CHR ''_'') (toLowerCase s)
   \<and> (normalize_name s = [] \<longleftrightarrow> s = [])
   \<and> (normalize_name s = [] \<longleftrightarrow> resolve session_token s = Inl InvalidNameError)
   \<and> (file_type f = ''text/csv'' \<longrightarrow>
        indexName (handleFileSelect (Some f) st) = normalize_name (replace_first ''.csv'' [] (file_name f)))
   \<and> (indexName st = [] \<longrightarrow>
        snd (uploadCSV reply indices_reply st) = []
        \<and> alert_type (alert (fst (uploadCSV reply indices_reply st))) = error)"
proof -
  have 1: "\<forall>c\<in>set (normalize_name s). index_char c"
    unfolding normalize_name_def by (rule sanitize_chars)
  have 2: "normalize_name s = map (\<lambda>c. if index_char c then c else CHR ''_'') (toLowerCase s)"
    by (simp add: normalize_name_def sanitize_def)
  have 3: "normalize_name s = [] \<longleftrightarrow> s = []"
    using length_normalize [of s] by (metis length_0_conv)
  have 4: "normalize_name s = [] \<longleftrightarrow> resolve session_token s = Inl InvalidNameError"
    by (simp add: resolve_def Let_def)
  have 5: "file_type f = ''text/csv'' \<longrightarrow>
        indexName (handleFileSelect (Some f) st) = normalize_name (replace_first ''.csv'' [] (file_name f))"
    by (simp add: handleFileSelect_def showAlert_def autoIndexName_def normalize_name_def)
  have 6: "indexName st = [] \<longrightarrow>
        snd (uploadCSV reply indices_reply st) = []
        \<and> alert_type (alert (fst (uploadCSV reply indices_reply st))) = error"
    by (simp add: uploadCSV_def showAlert_def split: option.splits)
  from 1 2 3 4 5 6 show ?thesis by blast
qed

subsection \<open>The properties at the example data\<close>

lemma example_reachable:
  "run example_events (initial_data, Map.empty)
     = (example_state, [''userSessionId'' \<mapsto> example_token])"
proof -
  have g: "generateUUID example_runtime = example_token" by code_simp
  have d: "display_name (info_name example_index) = ''sales''" by code_simp
  show ?thesis
    by (simp add: example_events_def run_def mounted_def initializeSession_def g loadIndices_def
        session_def to_entry_def d example_state_def initial_data_def example_token_def Let_def)
qed

text \<open>A first page load with an empty storage, and a later one in a browser that has
  \<^verbatim>\<open>crypto.randomUUID\<close>.\<close>
theorem session_token_created_once_witness:
  "runtime_ok example_runtime
   \<and> initializeSession example_runtime (initial_data, Map.empty)
       = (initial_data\<lparr>sessionId := Some example_token\<rparr>, [''userSessionId'' \<mapsto> example_token])
   \<and> initializeSession \<lparr>crypto_randomUUID = Some ''ffffffff-ffff-4fff-8fff-ffffffffffff'',
                         math_random = (\<lambda>i. 0)\<rparr>
         (initial_data, [''userSessionId'' \<mapsto> example_token])
       = (initial_data\<lparr>sessionId := Some example_token\<rparr>, [''userSessionId'' \<mapsto> example_token])
   \<and> snd (run example_events (initial_data, [''userSessionId'' \<mapsto> example_token]))
       = [''userSessionId'' \<mapsto> example_token]"
proof -
  have ok: "runtime_ok example_runtime"
    by (simp add: runtime_ok_def example_runtime_def)
  have g: "generateUUID example_runtime = example_token" by code_simp
  have eq: "initializeSession example_runtime (initial_data, Map.empty)
       = (initial_data\<lparr>sessionId := Some example_token\<rparr>, [''userSessionId'' \<mapsto> example_token])"
    by (simp add: initializeSession_def g)
  from session_token_created_once [OF ok eq,
      of "\<lparr>crypto_randomUUID = Some ''ffffffff-ffff-4fff-8fff-ffffffffffff'', math_random = (\<lambda>i. 0)\<rparr>"
         initial_data example_events] ok eq
  show ?thesis by simp
qed

text \<open>A query of two spaces, with a session and a selected index, and a server that
  would answer with a hit.\<close>
theorem empty_query_is_error_witness:
  "list_all is_whitespace (searchQuery (example_state\<lparr>searchQuery := ''  ''\<rparr>))
   \<and> snd (performSearch (Search_ok example_data) 0 (example_state\<lparr>searchQuery := ''  ''\<rparr>)) = []
   \<and> alert_type (alert (fst (performSearch (Search_ok example_data) 0
                                 (example_state\<lparr>searchQuery := ''  ''\<rparr>)))) = error"
proof -
  have w: "is_whitespace (CHR '' '')" by code_simp
  then have h: "\<forall>c\<in>set (searchQuery (example_state\<lparr>searchQuery := ''  ''\<rparr>)). is_whitespace c"
    by simp
  from w have l: "list_all is_whitespace (searchQuery (example_state\<lparr>searchQuery := ''  ''\<rparr>))"
    by simp
  from empty_query_is_error [OF h, of "Search_ok example_data" 0] l show ?thesis by blast
qed

text \<open>The request sent from the example state: the numeric column \<^verbatim>\<open>price\<close> is left
  out.\<close>
theorem agg_fields_are_text_columns_witness:
  "Post_search
     \<lparr>req_index_name = ''temp-01234567-89ab-4cde-b012-3456789abcde-sales'',
      req_query = ''shoes'', req_size = 10, req_agg_fields = [''city'', ''product''],
      req_session_id = ''01234567-89ab-4cde-b012-3456789abcde''\<rparr>
     \<in> set (snd (performSearch (Search_ok example_data) 0 example_state))
   \<and> textColumns example_state = [''city'', ''product'']"
proof -
  have t: "trim ''shoes'' = ''shoes''" by code_simp
  have c: "textColumns example_state = [''city'', ''product'']"
    by (simp add: textColumns_def example_state_def example_index_def)
  have h: "Post_search
     \<lparr>req_index_name = ''temp-01234567-89ab-4cde-b012-3456789abcde-sales'',
      req_query = ''shoes'', req_size = 10, req_agg_fields = [''city'', ''product''],
      req_session_id = ''01234567-89ab-4cde-b012-3456789abcde''\<rparr>
     \<in> set (snd (performSearch (Search_ok example_data) 0 example_state))"
    using c
    by (simp add: performSearch_def session_def t Let_def textColumns_def example_state_def
        example_index_def example_token_def initial_data_def)
  from agg_fields_are_text_columns [OF h] h show ?thesis by simp
qed

text \<open>A reload that lists another index keeps the selection; a reload without a
  selection selects the first index.\<close>
theorem loadIndices_keeps_selection_witness:
  "selectedIndex example_state \<noteq> []
   \<and> selectedIndex (fst (loadIndices (Some [\<lparr>info_name = ''other'', info_columns = []\<rparr>])
                             example_state)) = selectedIndex example_state
   \<and> selectedIndex (fst (loadIndices (Some [example_index]) (example_state\<lparr>selectedIndex := []\<rparr>)))
       \<noteq> selectedIndex (example_state\<lparr>selectedIndex := []\<rparr>)
   \<and> selectedIndex (example_state\<lparr>selectedIndex := []\<rparr>) = []"
proof -
  have a: "selectedIndex example_state \<noteq> []"
    by (simp add: example_state_def example_index_def)
  have b: "selectedIndex (fst (loadIndices (Some [example_index]) (example_state\<lparr>selectedIndex := []\<rparr>)))
       \<noteq> selectedIndex (example_state\<lparr>selectedIndex := []\<rparr>)"
    by (simp add: loadIndices_def session_def to_entry_def example_state_def example_index_def
        example_token_def)
  from loadIndices_keeps_selection
         [of example_state "Some [\<lparr>info_name = ''other'', info_columns = []\<rparr>]"]
       loadIndices_keeps_selection [of "example_state\<lparr>selectedIndex := []\<rparr>" "Some [example_index]"]
       a b
  show ?thesis by blast
qed

text \<open>The names \<^verbatim>\<open>My File!\<close> and \<^verbatim>\<open>Sales Report 2024.csv\<close>, the empty name, and the
  file \<^verbatim>\<open>.csv\<close>, whose index name is empty.\<close>
theorem index_name_normalized_witness:
  "normalize_name ''My File!'' = ''my_file_''
   \<and> list_all index_char ''my_file_''
   \<and> resolve example_token ''My File!'' \<noteq> Inl InvalidNameError
   \<and> resolve example_token [] = Inl InvalidNameError
   \<and> indexName (handleFileSelect (Some \<lparr>file_name = ''Sales Report 2024.csv'', file_type = ''text/csv''\<rparr>)
                   example_state) = ''sales_report_2024''
   \<and> indexName (handleFileSelect (Some \<lparr>file_name = ''.csv'', file_type = ''text/csv''\<rparr>)
                   example_state) = []
   \<and> snd (uploadCSV (Upload_ok 3 0) None
             (handleFileSelect (Some \<lparr>file_name = ''.csv'', file_type = ''text/csv''\<rparr>)
                example_state)) = []
   \<and> alert_type (alert (fst (uploadCSV (Upload_ok 3 0) None
             (handleFileSelect (Some \<lparr>file_name = ''.csv'', file_type = ''text/csv''\<rparr>)
                example_state)))) = error"
proof -
  have n: "normalize_name ''My File!'' = ''my_file_''" by code_simp
  have r: "normalize_name (replace_first ''.csv'' [] ''Sales Report 2024.csv'') = ''sales_report_2024''"
    by code_simp
  have e: "normalize_name (replace_first ''.csv'' [] ''.csv'') = []" by code_simp
  let ?empty = "\<lparr>file_name = ''.csv'', file_type = ''text/csv''\<rparr>"
  let ?sales = "\<lparr>file_name = ''Sales Report 2024.csv'', file_type = ''text/csv''\<rparr>"
  from index_name_normalized [where s = "''My File!''" and session_token = example_token
         and f = ?sales and st = example_state and reply = "Upload_ok 3 0" and indices_reply = None]
  have "\<forall>c\<in>set (normalize_name ''My File!''). index_char c"
    and "normalize_name ''My File!'' = [] \<longleftrightarrow> resolve example_token ''My File!'' = Inl InvalidNameError"
    and "file_type ?sales = ''text/csv'' \<longrightarrow>
      indexName (handleFileSelect (Some ?sales) example_state)
        = normalize_name (replace_first ''.csv'' [] (file_name ?sales))"
    by blast+
  then have 1: "list_all index_char ''my_file_''
     \<and> resolve example_token ''My File!'' \<noteq> Inl InvalidNameError
     \<and> indexName (handleFileSelect (Some ?sales) example_state) = ''sales_report_2024''"
    unfolding n list_all_iff using r by simp
  from index_name_normalized [where s = "[]" and session_token = example_token
         and f = ?empty and st = example_state and reply = "Upload_ok 3 0" and indices_reply = None]
  have "normalize_name [] = [] \<longleftrightarrow> resolve example_token [] = Inl InvalidNameError"
    and "normalize_name [] = [] \<longleftrightarrow> [] = ([] :: string)"
    and "file_type ?empty = ''text/csv'' \<longrightarrow>
      indexName (handleFileSelect (Some ?empty) example_state)
        = normalize_name (replace_first ''.csv'' [] (file_name ?empty))"
    by blast+
  then have 2: "resolve example_token [] = Inl InvalidNameError
     \<and> indexName (handleFileSelect (Some ?empty) example_state) = []"
    using e by simp
  from index_name_normalized [where s = "[]" and session_token = example_token and f = ?empty
         and st = "handleFileSelect (Some ?empty) example_state"
         and reply = "Upload_ok 3 0" and indices_reply = None] 2
  have 3: "snd (uploadCSV (Upload_ok 3 0) None (handleFileSelect (Some ?empty) example_state)) = []
   \<and> alert_type (alert (fst (uploadCSV (Upload_ok 3 0) None
                                 (handleFileSelect (Some ?empty) example_state)))) = error"
    by blast
  from n 1 2 3 show ?thesis by blast
qed

text \<open>The eleventh search of a run drops the entry of the first.\<close>
theorem search_history_fifo_witness:
  "map hist_timestamp (searchHistory (fst (run example_searches (initial_data, Map.empty))))
     = [1, 2, 3, 4, 5, 6, 7, 8, 9, 10]
   \<and> snd (performSearch (Search_ok example_data) 11
              (fst (run example_searches (initial_data, Map.empty)))) \<noteq> []
   \<and> map hist_timestamp
         (searchHistory (fst (performSearch (Search_ok example_data) 11
                                (fst (run example_searches (initial_data, Map.empty))))))
     = [2, 3, 4, 5, 6, 7, 8, 9, 10, 11]"
proof -
  let ?w = "run example_searches (initial_data, Map.empty)"
  let ?r = "performSearch (Search_ok example_data) 11 (fst ?w)"
  have before: "map hist_timestamp (searchHistory (fst ?w)) = [1, 2, 3, 4, 5, 6, 7, 8, 9, 10]"
    by code_simp
  have h1: "?w = (fst ?w, snd ?w)" by simp
  have h2: "?r = (fst ?r, snd ?r)" by simp
  have h3: "snd ?r \<noteq> []" by code_simp
  from search_history_fifo [OF h1 h2 h3]
  have "searchHistory (fst ?r) =
          (if length (searchHistory (fst ?w)) < 10 then searchHistory (fst ?w)
           else tl (searchHistory (fst ?w)))
          @ [\<lparr>hist_query = searchQuery (fst ?w), hist_time = search_time_seconds example_data,
              hist_results = total_results example_data, hist_timestamp = 11\<rparr>]"
    by blast
  then have "map hist_timestamp (searchHistory (fst ?r)) =
          (if length (map hist_timestamp (searchHistory (fst ?w))) < 10
           then map hist_timestamp (searchHistory (fst ?w))
           else tl (map hist_timestamp (searchHistory (fst ?w)))) @ [11]"
    by (simp add: map_tl)
  then have "map hist_timestamp (searchHistory (fst ?r)) = [2, 3, 4, 5, 6, 7, 8, 9, 10, 11]"
    unfolding before by simp
  with before h3 show ?thesis by blast
qed

subsection \<open>The unit of a file size\<close>

lemma ln2_bounds: "1 / 2 \<le> ln (2::real)" "ln (2::real) \<le> 1"
proof -
  have "ln (1 - 1 / 2 :: real) \<le> - (1 / 2)"
    by (rule ln_one_minus_pos_upper_bound) simp_all
  moreover have "ln (1 - 1 / 2 :: real) = - ln 2"
    by (simp add: ln_div)
  ultimately show "1 / 2 \<le> ln (2::real)" by simp
  show "ln (2::real) \<le> 1"
    using ln_le_minus_one [of "2::real"] by simp
qed

lemma ln_1024: "ln (1024::real) = 10 * ln 2"
proof -
  show ?thesis using ln_realpow [of "2::real" 10] by simp
qed

lemma ln_bytes_upper:
  assumes "1 \<le> n" "n < 1024 ^ 4"
  shows "ln (real n) \<le> 40 * ln 2 - 1 / 2 ^ 40"
proof -
  from assms(2) have "n \<le> 1024 ^ 4 - 1" by simp
  then have "real n \<le> real (1024 ^ 4 - 1)" by (simp only: of_nat_le_iff)
  also have "real (1024 ^ 4 - 1) = 2 ^ 40 * (1 - 1 / 2 ^ 40)" by simp
  finally have le: "real n \<le> 2 ^ 40 * (1 - 1 / 2 ^ 40)" .
  from assms(1) have pos: "0 < real n" by simp
  have "ln (real n) \<le> ln (2 ^ 40 * (1 - 1 / 2 ^ 40))"
    using le pos by (rule ln_mono)
  also have "\<dots> = ln (2 ^ 40 :: real) + ln (1 - 1 / 2 ^ 40)"
    by (rule ln_mult_pos) simp_all
  also have "ln (2 ^ 40 :: real) = 40 * ln 2"
    using ln_realpow [of "2::real" 40] by simp
  also have "ln (1 - 1 / 2 ^ 40 :: real) \<le> - (1 / 2 ^ 40)"
    by (rule ln_one_minus_pos_upper_bound) simp_all
  finally show ?thesis by simp
qed

lemma exact_ratio_upper:
  assumes "1 \<le> n" "n < 1024 ^ 4"
  shows "ln (real n) / ln 1024 \<le> 4 - 1 / (10 * 2 ^ 40)"
proof -
  have l2: "0 < ln (2::real)" "ln (2::real) \<le> 1" using ln2_bounds by simp_all
  have "ln (real n) / ln 1024 \<le> (40 * ln 2 - 1 / 2 ^ 40) / (10 * ln 2)"
    unfolding ln_1024 using ln_bytes_upper [OF assms] l2 by (simp add: divide_right_mono)
  also have "\<dots> = 4 - (1 / 2 ^ 40) / (10 * ln 2)"
    using l2 by (simp add: field_simps)
  also have "\<dots> \<le> 4 - (1 / 2 ^ 40) / (10 * 1)"
  proof -
    have "(1 / 2 ^ 40) / (10 * 1) \<le> (1 / 2 ^ 40) / (10 * ln (2::real))"
      using l2 by (intro divide_left_mono) simp_all
    then show ?thesis by simp
  qed
  finally show ?thesis by simp
qed


lemma unit_index_bounds:
  assumes ok: "numerics_ok fl" and n: "1 \<le> n" "n < 1024 ^ 4"
  shows "0 \<le> unit_index fl n \<and> unit_index fl n < 4"
proof -
  define e :: real where "e = 1 / 2 ^ 50"
  define x where "x = math_log fl (real n)"
  define y where "y = math_log fl 1024"
  define q where "q = rounded_div fl x y"
  have e: "0 < e" "e < 1" by (simp_all add: e_def)
  have l2: "1 / 2 \<le> ln (2::real)" "ln (2::real) \<le> 1" by (rule ln2_bounds)+
  have lb0: "0 \<le> ln (real n)" using n(1) by simp
  have lb40: "ln (real n) \<le> 40" using ln_bytes_upper [OF n] l2 by simp
  from ok n have "\<bar>x - ln (real n)\<bar> \<le> ln (real n) * e"
    unfolding numerics_ok_def x_def e_def by simp
  then have x: "ln (real n) * (1 - e) \<le> x" "x \<le> ln (real n) * (1 + e)"
    by (simp_all add: algebra_simps abs_le_iff)
  from ok have "\<bar>math_log fl (real (1024::nat)) - ln (real (1024::nat))\<bar> \<le> ln (real (1024::nat)) / 2 ^ 50"
    unfolding numerics_ok_def by (elim conjE allE [of _ "1024::nat"]) simp
  then have "\<bar>y - ln 1024\<bar> \<le> ln 1024 * e"
    unfolding y_def e_def by simp
  then have y: "ln 1024 * (1 - e) \<le> y" "y \<le> ln 1024 * (1 + e)"
    by (simp_all add: algebra_simps abs_le_iff)
  have lk: "5 \<le> ln (1024::real)" "ln (1024::real) \<le> 10"
    unfolding ln_1024 using l2 by simp_all
  have x0: "0 \<le> x"
    using x(1) lb0 e by (meson mult_nonneg_nonneg order_trans diff_ge_0_iff_ge less_imp_le)
  have x64: "x \<le> 64"
  proof -
    have "ln (real n) * (1 + e) \<le> 40 * (1 + e)" by (intro mult_right_mono) (use lb40 e in simp_all)
    also have "\<dots> \<le> 64" by (simp add: e_def)
    finally show ?thesis using x(2) by simp
  qed
  have ylow: "ln 1024 * (1 - e) \<le> y" by (rule y(1))
  have ypos: "0 < ln 1024 * (1 - e)" using lk e by simp
  have y1: "1 \<le> y"
  proof -
    have "1 \<le> 5 * (1 - e)" by (simp add: e_def)
    also have "\<dots> \<le> ln 1024 * (1 - e)" by (intro mult_right_mono) (use lk e in simp_all)
    finally show ?thesis using y(1) by simp
  qed
  have y64: "y \<le> 64"
  proof -
    have "ln 1024 * (1 + e) \<le> 10 * (1 + e)" by (intro mult_right_mono) (use lk e in simp_all)
    also have "\<dots> \<le> 64" by (simp add: e_def)
    finally show ?thesis using y(2) by simp
  qed
  have xs: "x = 0 \<or> 1 / 4 \<le> x"
  proof (cases "n = 1")
    case True
    with x lb0 show ?thesis by simp
  next
    case False
    with n(1) have "2 \<le> real n" by simp
    then have "ln 2 \<le> ln (real n)" by (intro ln_mono) simp_all
    with l2 have h: "1 / 2 \<le> ln (real n)" by simp
    have "1 / 4 \<le> 1 / 2 * (1 - e)" by (simp add: e_def)
    also have "\<dots> \<le> ln (real n) * (1 - e)" by (intro mult_right_mono) (use h e in simp_all)
    finally show ?thesis using x(1) by simp
  qed
  define t where "t = x / y"
  from ok xs x64 y1 y64 have "\<bar>q - t\<bar> \<le> t * e"
    unfolding numerics_ok_def q_def e_def t_def by simp
  then have "t * (1 - e) \<le> q" "q \<le> t * (1 + e)"
    by (simp_all add: algebra_simps abs_le_iff)
  then have q: "(x / y) * (1 - e) \<le> q" "q \<le> (x / y) * (1 + e)"
    unfolding t_def by simp_all
  have xy0: "0 \<le> x / y" using x0 y1 by simp
  have q0: "0 \<le> q"
  proof -
    have "0 \<le> (x / y) * (1 - e)" by (intro mult_nonneg_nonneg) (use xy0 e in simp_all)
    with q(1) show ?thesis by simp
  qed
  have "x / y \<le> (ln (real n) * (1 + e)) / (ln 1024 * (1 - e))"
  proof (rule frac_le)
    show "0 \<le> ln (real n) * (1 + e)" using x0 x(2) by simp
  qed (fact x(2) ypos ylow)+
  also have "\<dots> = (ln (real n) / ln 1024) * ((1 + e) / (1 - e))"
    by simp
  also have "\<dots> \<le> (4 - 1 / (10 * 2 ^ 40)) * ((1 + e) / (1 - e))"
    using exact_ratio_upper [OF n] e by (intro mult_right_mono) simp_all
  finally have "x / y \<le> (4 - 1 / (10 * 2 ^ 40)) * ((1 + e) / (1 - e))" .
  then have "(x / y) * (1 + e) \<le> (4 - 1 / (10 * 2 ^ 40)) * ((1 + e) / (1 - e)) * (1 + e)"
    using e by (intro mult_right_mono) simp_all
  also have "\<dots> < 4"
    unfolding e_def by simp
  finally have q4: "q < 4" using q(2) by simp
  have "unit_index fl n = \<lfloor>q\<rfloor>"
    by (simp add: unit_index_def q_def x_def y_def)
  moreover from q0 have "0 \<le> \<lfloor>q\<rfloor>" by simp
  moreover from q4 have "\<lfloor>q\<rfloor> < 4" by (simp add: floor_less_iff)
  ultimately show ?thesis by simp
qed

lemma example_numerics_ok: "numerics_ok example_numerics"
proof -
  have "\<forall>n. 1 \<le> n \<and> n \<le> 1024 ^ 4 \<longrightarrow> \<bar>ln (real n) - ln (real n)\<bar> \<le> ln (real n) / 2 ^ 50"
    by simp
  moreover have "\<forall>x y :: real. (x = 0 \<or> 1 / 4 \<le> x) \<and> x \<le> 64 \<and> 1 \<le> y \<and> y \<le> 64 \<longrightarrow>
          \<bar>x / y - x / y\<bar> \<le> (x / y) / 2 ^ 50"
    by auto
  ultimately show ?thesis by (simp add: numerics_ok_def example_numerics_def)
qed


text \<open>Claim C10. \<open>formatFileSize\<close> of 0 is \<^verbatim>\<open>0 Bytes\<close> whatever the logarithm and the
  division of the environment are: they are not consulted. For every byte count from 1
  to \<open>1024 ^ 4 - 1\<close>, in an environment of the accuracy \<open>numerics_ok\<close>, the unit index is
  within the four-element array, so the result ends in one of its units.\<close>
theorem formatFileSize_unit_defined:
  "formatFileSize fl 0 = ''0 Bytes''
   \<and> (numerics_ok fl \<and> 1 \<le> bytes \<and> bytes < 1024 ^ 4 \<longrightarrow>
        0 \<le> unit_index fl bytes \<and> unit_index fl bytes < int (length sizes)
        \<and> unit_text (unit_index fl bytes) \<in> set sizes
        \<and> formatFileSize fl bytes
            = number_text fl bytes (unit_index fl bytes) @ '' '' @ sizes ! nat (unit_index fl bytes))"
proof (intro conjI impI)
  show "formatFileSize fl 0 = ''0 Bytes''"
    by (simp add: formatFileSize_def)
next
  assume "numerics_ok fl \<and> 1 \<le> bytes \<and> bytes < 1024 ^ 4"
  then have ok: "numerics_ok fl" and n: "1 \<le> bytes" "bytes < 1024 ^ 4" by simp_all
  from unit_index_bounds [OF ok n]
  have i: "0 \<le> unit_index fl bytes" "unit_index fl bytes < 4" by simp_all
  have len: "int (length sizes) = 4" by (simp add: sizes_def)
  from i have "nat (unit_index fl bytes) < length sizes" by (simp add: sizes_def)
  then have mem: "sizes ! nat (unit_index fl bytes) \<in> set sizes" by (rule nth_mem)
  from i have ut: "unit_text (unit_index fl bytes) = sizes ! nat (unit_index fl bytes)"
    by (simp add: unit_text_def len)
  show "0 \<le> unit_index fl bytes" by (rule i)
  show "unit_index fl bytes < int (length sizes)" using i len by simp
  show "unit_text (unit_index fl bytes) \<in> set sizes" using mem ut by simp
  show "formatFileSize fl bytes
            = number_text fl bytes (unit_index fl bytes) @ '' '' @ sizes ! nat (unit_index fl bytes)"
    using n(1) by (simp add: formatFileSize_def Let_def ut)
qed

lemma example_unit_index: "unit_index example_numerics 1536 = 1"
proof -
  have k: "0 < ln (1024::real)" by simp
  have lo: "ln (1024::real) \<le> ln 1536" by (intro ln_mono) simp_all
  have "ln (1536::real) < ln (1024 ^ 2)" by (subst ln_less_cancel_iff) simp_all
  also have "ln ((1024::real) ^ 2) = 2 * ln 1024" by (simp only: ln_realpow of_nat_numeral)
  finally have hi: "ln (1536::real) < 2 * ln 1024" .
  have "\<lfloor>ln (1536::real) / ln 1024\<rfloor> = 1"
    unfolding floor_eq_iff using k lo hi by (simp add: field_simps)
  then show ?thesis by (simp add: unit_index_def example_numerics_def)
qed

text \<open>A file of 1536 bytes, with exact arithmetic.\<close>
theorem formatFileSize_unit_defined_witness:
  "numerics_ok example_numerics
   \<and> 1 \<le> (1536::nat) \<and> (1536::nat) < 1024 ^ 4
   \<and> formatFileSize example_numerics 0 = ''0 Bytes''
   \<and> unit_index example_numerics 1536 = 1
   \<and> formatFileSize example_numerics 1536 = ''1.5 KB''"
proof -
  have ok: "numerics_ok example_numerics" by (rule example_numerics_ok)
  have i: "unit_index example_numerics 1536 = 1" by (rule example_unit_index)
  from formatFileSize_unit_defined [of example_numerics 1536] ok
  have "formatFileSize example_numerics 0 = ''0 Bytes''"
    and "formatFileSize example_numerics 1536
           = number_text example_numerics 1536 (unit_index example_numerics 1536) @ '' ''
             @ sizes ! nat (unit_index example_numerics 1536)"
    by simp_all
  then have "formatFileSize example_numerics 0 = ''0 Bytes''"
    and "formatFileSize example_numerics 1536 = ''1.5 KB''"
    unfolding i by (simp_all add: example_numerics_def sizes_def)
  with ok i show ?thesis by simp
qed

end
